theory Spec2Isabelle
  imports Main "HOL-Library.Word"
begin

section \<open>tox/terminalwriter.py: the terminal writer\<close>

text \<open>
  A shallow embedding of \<^verbatim>\<open>TerminalWriter\<close> (\<^verbatim>\<open>src/tox/terminalwriter.py\<close>): the
  \<^verbatim>\<open>fullwidth\<close> property, \<^verbatim>\<open>sep\<close> and \<^verbatim>\<open>write\<close>.

  Python text is a sequence of code points, so a message is a list of code points
  (\<^verbatim>\<open>len\<close> counts code points, one for a CJK ideograph). The embedding covers text
  messages, for which both \<^verbatim>\<open>isinstance(msg, bytes)\<close> tests of \<^verbatim>\<open>write\<close> are false.
  The writer object is mutated in place and an exception leaves the mutations done before
  it, so every method returns the outcome (\<open>None\<close>: returned normally, \<open>Some e\<close>: raised
  \<open>e\<close>) together with the writer after the call.
\<close>

subsection \<open>Text, bytes and exceptions\<close>

type_synonym codepoint = nat
type_synonym unicode = "codepoint list"
type_synonym bytes = "8 word list"

text \<open>An ASCII literal as Python text.\<close>

definition utext :: "string \<Rightarrow> unicode" where
  "utext s = map of_char s"

text \<open>
  The exceptions the module raises or lets through. \<open>ValueError_markup name\<close> is
  \<^verbatim>\<open>ValueError("unknown markup: %r" % (name,))\<close> of \<^verbatim>\<open>write\<close>; \<open>ValueError_int s\<close> is the
  \<^verbatim>\<open>ValueError\<close> of \<^verbatim>\<open>int(s)\<close> in \<^verbatim>\<open>fullwidth\<close>; \<open>NameError n\<close> is the lookup of a name that
  is bound nowhere; the four after it are the members of \<^verbatim>\<open>py.builtin._sysex\<close>;
  \<open>OtherError\<close> is any other exception of the sink, the codec or the terminal query.
\<close>

datatype error =
    ValueError_markup string
  | ValueError_int unicode
  | ZeroDivisionError
  | UnicodeEncodeError
  | NameError string
  | KeyboardInterrupt
  | SystemExit
  | MemoryError
  | GeneratorExit
  | OtherError string

fun sysex :: "error \<Rightarrow> bool" where
  "sysex KeyboardInterrupt = True"
| "sysex SystemExit = True"
| "sysex MemoryError = True"
| "sysex GeneratorExit = True"
| "sysex _ = False"

subsection \<open>What the module takes from Python's library and from the platform\<close>

text \<open>
  The module calls \<^verbatim>\<open>unicodedata.east_asian_width\<close>, \<^verbatim>\<open>unicodedata.normalize('NFC', _)\<close>,
  \<^verbatim>\<open>str.rstrip\<close> (whose whitespace test is \<^verbatim>\<open>str.isspace\<close>), \<^verbatim>\<open>str.encode\<close> and \<^verbatim>\<open>int\<close>.
  None of them is code of this repository: they are parameters of the embedding, and every
  theorem below holds for all of them unless it says otherwise.
\<close>

record pylib =
  east_asian_width :: "codepoint \<Rightarrow> string"
  normalize_NFC :: "unicode \<Rightarrow> unicode"
  isspace :: "codepoint \<Rightarrow> bool"
  encode :: "unicode \<Rightarrow> string \<Rightarrow> error + bytes"
  py_int :: "unicode \<Rightarrow> int option"

text \<open>
  The platform: \<^verbatim>\<open>IS_WINDOWS\<close>, the outcome of the terminal size query of \<^verbatim>\<open>fullwidth\<close>
  (\<^verbatim>\<open>shutil.get_terminal_size().columns\<close>, or the \<^verbatim>\<open>ioctl\<close> before Python 3.3) and
  \<^verbatim>\<open>environ.get('COLUMNS')\<close>.
\<close>

record platform =
  IS_WINDOWS :: bool
  terminal_size :: "error + int"
  COLUMNS :: "unicode option"

subsection \<open>The sink and the writer\<close>

text \<open>
  \<^verbatim>\<open>self._file\<close>: what \<^verbatim>\<open>write\<close> is given is text or, on the second attempt, encoded bytes.
  The sink either raises on a datum (\<open>raises\<close>) or takes it (\<open>written\<close>); \<open>flushes\<close>
  counts the calls of \<^verbatim>\<open>flush\<close>. \<open>sink_encoding\<close> is its \<^verbatim>\<open>encoding\<close> attribute
  (\<open>None\<close> for Python's \<^verbatim>\<open>None\<close>).
\<close>

datatype data = Str unicode | Raw bytes

record sink =
  sink_encoding :: "string option"
  raises :: "data \<Rightarrow> error option"
  written :: "data list"
  flushes :: nat

definition file_write :: "sink \<Rightarrow> data \<Rightarrow> error option \<times> sink" where
  "file_write f d =
     (case raises f d of
        Some e \<Rightarrow> (Some e, f)
      | None \<Rightarrow> (None, f\<lparr>written := written f @ [d]\<rparr>))"

definition file_flush :: "sink \<Rightarrow> sink" where
  "file_flush f = f\<lparr>flushes := Suc (flushes f)\<rparr>"

text \<open>\<^verbatim>\<open>class CurrentLine\<close> and its \<^verbatim>\<open>__init__\<close>.\<close>

record CurrentLine =
  chars :: int
  width :: int

definition CurrentLine_init :: CurrentLine where
  "CurrentLine_init = \<lparr>chars = 0, width = 0\<rparr>"

text \<open>
  The attributes of a \<^verbatim>\<open>TerminalWriter\<close>: \<^verbatim>\<open>hasmarkup\<close>, \<^verbatim>\<open>_file\<close>, \<^verbatim>\<open>_current_line\<close> and
  \<^verbatim>\<open>_terminal_width\<close>, which exists only once the setter of \<^verbatim>\<open>fullwidth\<close> has run.
\<close>

record TerminalWriter =
  hasmarkup :: bool
  outfile :: sink
  current_line :: CurrentLine
  terminal_width :: "int option"

subsection \<open>The fullwidth property\<close>

definition fullwidth :: "pylib \<Rightarrow> platform \<Rightarrow> TerminalWriter \<Rightarrow> error + int" where
  "fullwidth L P W =
     (case terminal_width W of
        Some v \<Rightarrow> Inr v
      | None \<Rightarrow>
          (case (case terminal_size P of
                   Inr w \<Rightarrow> Inr w
                 | Inl e \<Rightarrow> if sysex e then Inl e else Inr 0) of
             Inl e \<Rightarrow> Inl e
           | Inr w \<Rightarrow>
               if w = 0 then
                 (case COLUMNS P of
                    None \<Rightarrow> Inr 80
                  | Some s \<Rightarrow>
                      (case py_int L s of
                         None \<Rightarrow> Inl (ValueError_int s)
                       | Some n \<Rightarrow> Inr n))
               else if w < 40 then Inr 80
               else Inr w))"

definition fullwidth_setter :: "TerminalWriter \<Rightarrow> int \<Rightarrow> TerminalWriter" where
  "fullwidth_setter W v = W\<lparr>terminal_width := Some v\<rparr>"

subsection \<open>write\<close>

definition newline :: codepoint where
  "newline = 10"

text \<open>\<^verbatim>\<open>msg.rsplit(newline, 1)\<close>: split once, at the last occurrence of the separator.\<close>

fun rfind :: "unicode \<Rightarrow> codepoint \<Rightarrow> nat option" where
  "rfind [] c = None"
| "rfind (x # xs) c =
     (case rfind xs c of
        Some i \<Rightarrow> Some (Suc i)
      | None \<Rightarrow> if x = c then Some 0 else None)"

definition rsplit1 :: "unicode \<Rightarrow> codepoint \<Rightarrow> unicode list" where
  "rsplit1 s c =
     (case rfind s c of
        None \<Rightarrow> [s]
      | Some i \<Rightarrow> [take i s, drop (Suc i) s])"

text \<open>The table \<^verbatim>\<open>char_width\<close> and the sum over the normalised current line.\<close>

definition char_width :: "(string \<times> int) list" where
  "char_width =
     [(''A'', 1), (''F'', 2), (''H'', 1), (''N'', 1), (''Na'', 1), (''W'', 2)]"

definition display_width :: "pylib \<Rightarrow> unicode \<Rightarrow> int" where
  "display_width L s =
     sum_list (map (\<lambda>c. case map_of char_width (east_asian_width L c) of
                           None \<Rightarrow> 1
                         | Some w \<Rightarrow> w)
                   (normalize_NFC L s))"

text \<open>The table \<^verbatim>\<open>_esctable\<close>.\<close>

definition esctable :: "(string \<times> nat) list" where
  "esctable =
     [(''black'', 30), (''red'', 31), (''green'', 32), (''yellow'', 33),
      (''blue'', 34), (''purple'', 35), (''cyan'', 36), (''white'', 37),
      (''Black'', 40), (''Red'', 41), (''Green'', 42), (''Yellow'', 43),
      (''Blue'', 44), (''Purple'', 45), (''Cyan'', 46), (''White'', 47),
      (''bold'', 1), (''light'', 2), (''blink'', 5), (''invert'', 7)]"

text \<open>
  The loop \<^verbatim>\<open>for name in kw\<close>: the keyword arguments in the order of the call, each with
  the truth value of its argument. The first name that is not in the table raises.
\<close>

fun collect_esc :: "(string \<times> bool) list \<Rightarrow> error + nat list" where
  "collect_esc [] = Inr []"
| "collect_esc ((name, v) # kw) =
     (case map_of esctable name of
        None \<Rightarrow> Inl (ValueError_markup name)
      | Some cod \<Rightarrow>
          (case collect_esc kw of
             Inl e \<Rightarrow> Inl e
           | Inr esc \<Rightarrow> Inr (if v then cod # esc else esc)))"

text \<open>\<^verbatim>\<open>'%s' % cod\<close> for a code of the table: its decimal digits.\<close>

fun str_nat :: "nat \<Rightarrow> unicode" where
  "str_nat n = (if n < 10 then [48 + n] else str_nat (n div 10) @ [48 + n mod 10])"

declare str_nat.simps [simp del]

definition markup :: "unicode \<Rightarrow> (string \<times> bool) list \<Rightarrow> error + unicode" where
  "markup msg kw =
     (case collect_esc kw of
        Inl e \<Rightarrow> Inl e
      | Inr esc \<Rightarrow>
          Inr (if esc \<noteq> [] then
                 concat (map (\<lambda>cod. [27, 91] @ str_nat cod @ [109]) esc) @ msg @ [27, 91, 48, 109]
               else msg))"

text \<open>
  The \<^verbatim>\<open>try\<close> block at the end of \<^verbatim>\<open>write\<close>. The last fallback evaluates
  \<^verbatim>\<open>markupmsg.encode("unicode-escape")\<close>; no \<^verbatim>\<open>markupmsg\<close> is bound in the function, the
  module or the builtins, so the evaluation raises \<^verbatim>\<open>NameError\<close>.
\<close>

definition fallback :: "TerminalWriter \<Rightarrow> error option \<times> TerminalWriter" where
  "fallback W = (Some (NameError ''markupmsg''), W)"

definition emit :: "pylib \<Rightarrow> TerminalWriter \<Rightarrow> unicode \<Rightarrow> error option \<times> TerminalWriter" where
  "emit L W msg =
     (case file_write (outfile W) (Str msg) of
        (None, f1) \<Rightarrow> (None, W\<lparr>outfile := file_flush f1\<rparr>)
      | (Some e, f1) \<Rightarrow>
          if e = UnicodeEncodeError then
            (case sink_encoding f1 of
               None \<Rightarrow> fallback W
             | Some enc \<Rightarrow>
                 if enc = [] then fallback W
                 else
                   (case encode L msg enc of
                      Inl e2 \<Rightarrow> if e2 = UnicodeEncodeError then fallback W else (Some e2, W)
                    | Inr b \<Rightarrow>
                        (case file_write f1 (Raw b) of
                           (None, f2) \<Rightarrow> (None, W\<lparr>outfile := file_flush f2\<rparr>)
                         | (Some e3, f2) \<Rightarrow>
                             if e3 = UnicodeEncodeError then fallback W else (Some e3, W))))
          else (Some e, W))"

definition tw_write ::
  "pylib \<Rightarrow> TerminalWriter \<Rightarrow> unicode \<Rightarrow> (string \<times> bool) list \<Rightarrow> error option \<times> TerminalWriter"
where
  "tw_write L W msg kw =
     (if msg = [] then (None, W)
      else
        let line = last (rsplit1 msg newline);
            w = display_width L line;
            n = int (length line);
            cl = current_line W;
            W1 = W\<lparr>current_line :=
                     (if newline \<in> set msg then \<lparr>chars = n, width = w\<rparr>
                      else \<lparr>chars = chars cl + n, width = width cl + w\<rparr>)\<rparr>
        in if hasmarkup W1 \<and> kw \<noteq> [] then
             (case markup msg kw of
                Inl e \<Rightarrow> (Some e, W1)
              | Inr m \<Rightarrow> emit L W1 m)
           else emit L W1 msg)"

text \<open>
  A caller making the calls of a list in order, going on after a call that raised.
\<close>

fun writes :: "pylib \<Rightarrow> TerminalWriter \<Rightarrow> (unicode \<times> (string \<times> bool) list) list \<Rightarrow> TerminalWriter" where
  "writes L W [] = W"
| "writes L W ((msg, kw) # calls) = writes L (snd (tw_write L W msg kw)) calls"

subsection \<open>sep\<close>

text \<open>\<^verbatim>\<open>sepchar * N\<close>: empty when \<open>N\<close> is not positive. \<^verbatim>\<open>sepchar.rstrip()\<close>.\<close>

definition py_mul :: "unicode \<Rightarrow> int \<Rightarrow> unicode" where
  "py_mul s n = concat (replicate (nat n) s)"

definition rstrip :: "pylib \<Rightarrow> unicode \<Rightarrow> unicode" where
  "rstrip L s = rev (dropWhile (isspace L) (rev s))"

text \<open>
  The line \<^verbatim>\<open>sep\<close> builds, from \<^verbatim>\<open>if IS_WINDOWS\<close> to the last \<^verbatim>\<open>line += sepchar.rstrip()\<close>.
  Both branches divide by \<^verbatim>\<open>len(sepchar)\<close>, so an empty \<^verbatim>\<open>sepchar\<close> raises
  \<^verbatim>\<open>ZeroDivisionError\<close> in either. Python's \<^verbatim>\<open>//\<close> rounds down, as \<open>div\<close> on \<open>int\<close> does.
\<close>

definition sep_line :: "pylib \<Rightarrow> bool \<Rightarrow> unicode \<Rightarrow> unicode option \<Rightarrow> int \<Rightarrow> error + unicode" where
  "sep_line L win sepchar title fullwidth0 =
     (let fw = (if win then fullwidth0 - 1 else fullwidth0) in
      if length sepchar = 0 then Inl ZeroDivisionError
      else
        let line =
              (case title of
                 Some t \<Rightarrow>
                   let N = max ((fw - int (length t) - 2) div (2 * int (length sepchar))) 1;
                       fill = py_mul sepchar N
                   in fill @ [32] @ t @ [32] @ fill
               | None \<Rightarrow> py_mul sepchar (fw div int (length sepchar)))
        in Inr (if int (length line) + int (length (rstrip L sepchar)) \<le> fw
                then line @ rstrip L sepchar else line))"

definition sep ::
  "pylib \<Rightarrow> platform \<Rightarrow> TerminalWriter \<Rightarrow> unicode \<Rightarrow> unicode option \<Rightarrow> int option \<Rightarrow>
   (string \<times> bool) list \<Rightarrow> error option \<times> TerminalWriter"
where
  "sep L P W sepchar title fullwidth_arg kw =
     (case (case fullwidth_arg of None \<Rightarrow> fullwidth L P W | Some v \<Rightarrow> Inr v) of
        Inl e \<Rightarrow> (Some e, W)
      | Inr fw \<Rightarrow>
          (case sep_line L (IS_WINDOWS P) sepchar title fw of
             Inl e \<Rightarrow> (Some e, W)
           | Inr line \<Rightarrow>
               (case tw_write L W line kw of
                  (Some e, W1) \<Rightarrow> (Some e, W1)
                | (None, W1) \<Rightarrow> tw_write L W1 [newline] [])))"

subsection \<open>What the specification says of the tracked line\<close>

text \<open>
  The substring after the last line terminator, by the specification's words (the whole
  message when it has none), and the tracked pair after one write: unchanged by an empty
  message, replaced when the message has a line terminator, added to otherwise.
\<close>

definition after_last :: "codepoint \<Rightarrow> unicode \<Rightarrow> unicode" where
  "after_last c s = rev (takeWhile (\<lambda>x. x \<noteq> c) (rev s))"

definition spec_width :: "pylib \<Rightarrow> unicode \<Rightarrow> int" where
  "spec_width L s =
     sum_list (map (\<lambda>c. if east_asian_width L c = ''F'' \<or> east_asian_width L c = ''W''
                         then 2 else 1)
                   (normalize_NFC L s))"

definition line_after :: "pylib \<Rightarrow> CurrentLine \<Rightarrow> unicode \<Rightarrow> CurrentLine" where
  "line_after L cl msg =
     (if msg = [] then cl
      else if newline \<in> set msg then
        \<lparr>chars = int (length (after_last newline msg)),
         width = spec_width L (after_last newline msg)\<rparr>
      else
        \<lparr>chars = chars cl + int (length (after_last newline msg)),
         width = width cl + spec_width L (after_last newline msg)\<rparr>)"

subsection \<open>A fragment of Python's library, for concrete runs\<close>

text \<open>
  An instance of the library that agrees with CPython where the concrete runs below use
  it: \<^verbatim>\<open>east_asian_width\<close> on U+0020..U+007E (Na), the CJK unified ideographs
  U+4E00..U+9FFF (W) and the fullwidth forms U+FF01..U+FF60 (F); NFC normalisation on text
  over these ranges, which it leaves as it is; \<^verbatim>\<open>str.isspace\<close>; the \<^verbatim>\<open>ascii\<close> codec; \<^verbatim>\<open>int\<close>
  on a decimal literal with an optional sign.
\<close>

definition ref_east_asian_width :: "codepoint \<Rightarrow> string" where
  "ref_east_asian_width c =
     (if 0x20 \<le> c \<and> c \<le> 0x7E then ''Na''
      else if 0x4E00 \<le> c \<and> c \<le> 0x9FFF then ''W''
      else if 0xFF01 \<le> c \<and> c \<le> 0xFF60 then ''F''
      else ''N'')"

definition ref_isspace :: "codepoint \<Rightarrow> bool" where
  "ref_isspace c =
     ((0x09 \<le> c \<and> c \<le> 0x0D) \<or> (0x1C \<le> c \<and> c \<le> 0x20) \<or> c = 0x85 \<or> c = 0xA0 \<or>
      c = 0x1680 \<or> (0x2000 \<le> c \<and> c \<le> 0x200A) \<or> c = 0x2028 \<or> c = 0x2029 \<or>
      c = 0x202F \<or> c = 0x205F \<or> c = 0x3000)"

definition ref_encode :: "unicode \<Rightarrow> string \<Rightarrow> error + bytes" where
  "ref_encode s enc =
     (if enc = ''ascii'' then
        (if list_all (\<lambda>c. c < 128) s then Inr (map of_nat s) else Inl UnicodeEncodeError)
      else Inl (OtherError ''LookupError''))"

definition ref_int :: "unicode \<Rightarrow> int option" where
  "ref_int s =
     (let neg = (s \<noteq> [] \<and> hd s = 45);
          ds = (if s \<noteq> [] \<and> (hd s = 45 \<or> hd s = 43) then tl s else s)
      in if ds \<noteq> [] \<and> list_all (\<lambda>c. 48 \<le> c \<and> c \<le> 57) ds then
           Some ((if neg then - 1 else 1) * foldl (\<lambda>a c. 10 * a + (int c - 48)) 0 ds)
         else None)"

definition ref_pylib :: pylib where
  "ref_pylib =
     \<lparr>east_asian_width = ref_east_asian_width,
      normalize_NFC = (\<lambda>s. s),
      isspace = ref_isspace,
      encode = ref_encode,
      py_int = ref_int\<rparr>"

text \<open>
  A text stream that takes every datum, an \<^verbatim>\<open>ascii\<close> stream that raises
  \<^verbatim>\<open>UnicodeEncodeError\<close> on text outside ASCII, the same stream with no \<^verbatim>\<open>encoding\<close>, a
  writer on a sink as \<^verbatim>\<open>__init__\<close> leaves its line state, a writer with markup in the middle
  of a line, and a platform with no terminal.
\<close>

definition any_sink :: sink where
  "any_sink = \<lparr>sink_encoding = Some ''utf-8'', raises = (\<lambda>d. None), written = [], flushes = 0\<rparr>"

definition ascii_raises :: "data \<Rightarrow> error option" where
  "ascii_raises d =
     (case d of
        Str s \<Rightarrow> if list_all (\<lambda>c. c < 128) s then None else Some UnicodeEncodeError
      | Raw b \<Rightarrow> None)"

definition ascii_sink :: sink where
  "ascii_sink = \<lparr>sink_encoding = Some ''ascii'', raises = ascii_raises, written = [], flushes = 0\<rparr>"

definition bare_sink :: sink where
  "bare_sink = \<lparr>sink_encoding = None, raises = ascii_raises, written = [], flushes = 0\<rparr>"

definition new_writer :: "bool \<Rightarrow> sink \<Rightarrow> TerminalWriter" where
  "new_writer m f =
     \<lparr>hasmarkup = m, outfile = f, current_line = CurrentLine_init, terminal_width = None\<rparr>"

definition line_in_progress :: "int \<Rightarrow> int \<Rightarrow> TerminalWriter" where
  "line_in_progress n w =
     \<lparr>hasmarkup = True, outfile = any_sink, current_line = \<lparr>chars = n, width = w\<rparr>,
      terminal_width = None\<rparr>"

definition no_tty :: platform where
  "no_tty = \<lparr>IS_WINDOWS = False, terminal_size = Inl (OtherError ''OSError''), COLUMNS = None\<rparr>"

definition windows :: platform where
  "windows = \<lparr>IS_WINDOWS = True, terminal_size = Inr 120, COLUMNS = None\<rparr>"

subsection \<open>What the specification says of the separator line\<close>

text \<open>
  The width \<^verbatim>\<open>sep\<close> works with (one less on Windows), the fill count \<open>N\<close> by the
  specification's formula, the titled line before the extra separator, and the length of the
  untitled line as a function of the resolved width: \<open>l\<close> is \<^verbatim>\<open>len(sepchar)\<close> and \<open>k\<close> is
  \<^verbatim>\<open>len(sepchar.rstrip())\<close>.
\<close>

definition resolved_width :: "bool \<Rightarrow> int \<Rightarrow> int" where
  "resolved_width win w = (if win then w - 1 else w)"

definition fill_count :: "int \<Rightarrow> unicode \<Rightarrow> unicode \<Rightarrow> int" where
  "fill_count fw title sepchar =
     max ((fw - int (length title) - 2) div (2 * int (length sepchar))) 1"

definition titled :: "unicode \<Rightarrow> unicode \<Rightarrow> unicode" where
  "titled fill title = fill @ [32] @ title @ [32] @ fill"

definition plain_length :: "int \<Rightarrow> int \<Rightarrow> int \<Rightarrow> int" where
  "plain_length l k fw =
     (if l * max (fw div l) 0 + k \<le> fw then l * max (fw div l) 0 + k else l * max (fw div l) 0)"

section \<open>Properties\<close>

subsection \<open>The substring after the last line terminator\<close>

lemma after_last_notin: "c \<notin> set s \<Longrightarrow> after_last c s = s"
proof -
  assume "c \<notin> set s"
  then have "takeWhile (\<lambda>x. x \<noteq> c) (rev s) = rev s"
    by (intro takeWhile_eq_all_conv [THEN iffD2]) auto
  then show ?thesis unfolding after_last_def by (simp only: rev_rev_ident)
qed

lemma after_last_append:
  "after_last c (a @ b) = (if c \<in> set b then after_last c b else after_last c a @ b)"
proof (cases "c \<in> set b")
  case True
  then have "takeWhile (\<lambda>y. y \<noteq> c) (rev b @ rev a) = takeWhile (\<lambda>y. y \<noteq> c) (rev b)"
    by (intro takeWhile_append1 [of c]) auto
  with True show ?thesis by (simp add: after_last_def)
next
  case False
  then have "takeWhile (\<lambda>y. y \<noteq> c) (rev b @ rev a) = rev b @ takeWhile (\<lambda>y. y \<noteq> c) (rev a)"
    by (intro takeWhile_append2) auto
  with False show ?thesis by (simp add: after_last_def)
qed

lemma after_last_Cons:
  "after_last c (x # xs) =
     (if c \<in> set xs then after_last c xs else if x = c then xs else x # xs)"
  using after_last_append [of c "[x]" xs] by (simp add: after_last_def)

lemma rfind_None: "rfind s c = None \<longleftrightarrow> c \<notin> set s"
  by (induction s) (auto split: option.splits)

lemma rfind_Some: "rfind s c = Some i \<Longrightarrow> drop (Suc i) s = after_last c s"
proof (induction s arbitrary: i)
  case Nil
  then show ?case by simp
next
  case (Cons x xs)
  show ?case
  proof (cases "rfind xs c")
    case None
    with Cons.prems have "x = c" "i = 0" by (auto split: if_splits)
    moreover from None have "c \<notin> set xs" by (simp add: rfind_None)
    ultimately show ?thesis by (simp add: after_last_Cons)
  next
    case (Some j)
    with Cons.prems have i: "i = Suc j" by simp
    from Some have "c \<in> set xs" using rfind_None [of xs c] by auto
    with Cons.IH [OF Some] i show ?thesis by (simp add: after_last_Cons)
  qed
qed

lemma last_rsplit1: "last (rsplit1 s c) = after_last c s"
proof (cases "rfind s c")
  case None
  then have "c \<notin> set s" by (simp add: rfind_None)
  then have "after_last c s = s" by (rule after_last_notin)
  with None show ?thesis by (simp add: rsplit1_def)
next
  case (Some i)
  then show ?thesis by (simp add: rsplit1_def rfind_Some)
qed

subsection \<open>The tracked line after a write\<close>

lemma char_width_get:
  "(case map_of char_width k of None \<Rightarrow> 1 | Some w \<Rightarrow> w) = (if k = ''F'' \<or> k = ''W'' then 2 else 1)"
  by (simp add: char_width_def)

lemma display_width_spec: "display_width L s = spec_width L s"
  by (simp add: display_width_def spec_width_def char_width_get)

lemma spec_width_Nil: "normalize_NFC L [] = [] \<Longrightarrow> spec_width L [] = 0"
  by (simp add: spec_width_def)

lemma emit_current_line: "current_line (snd (emit L W m)) = current_line W"
  by (simp add: emit_def fallback_def file_write_def split: option.splits sum.splits prod.splits)

lemma tw_write_current_line:
  "current_line (snd (tw_write L W msg kw)) = line_after L (current_line W) msg"
  by (simp add: tw_write_def line_after_def Let_def last_rsplit1 display_width_spec
      emit_current_line split: sum.splits)

lemma writes_current_line:
  "current_line (writes L W calls) = foldl (line_after L) (current_line W) (map fst calls)"
  by (induction calls arbitrary: W) (auto simp: tw_write_current_line)

lemma chars_line_after:
  "chars (line_after L cl msg) =
     (if newline \<in> set msg then int (length (after_last newline msg))
      else chars cl + int (length msg))"
  by (auto simp: line_after_def after_last_notin)

lemma writes_chars:
  "chars (current_line (writes L W calls)) =
     (if newline \<in> set (concat (map fst calls))
      then int (length (after_last newline (concat (map fst calls))))
      else chars (current_line W) + int (length (concat (map fst calls))))"
proof (induction calls arbitrary: W)
  case Nil
  then show ?case by simp
next
  case (Cons call calls)
  obtain msg kw where call: "call = (msg, kw)" by (cases call)
  let ?W = "snd (tw_write L W msg kw)"
  have step: "chars (current_line ?W) =
     (if newline \<in> set msg then int (length (after_last newline msg))
      else chars (current_line W) + int (length msg))"
    by (simp add: tw_write_current_line chars_line_after)
  show ?case
    using Cons.IH [of ?W] step
    by (auto simp: call after_last_append)
qed

lemma tw_write_newline:
  "current_line (snd (tw_write L W [newline] kw)) = \<lparr>chars = 0, width = spec_width L []\<rparr>"
  by (simp add: tw_write_current_line line_after_def after_last_def)

subsection \<open>What reaches the sink\<close>

lemma emit_ok:
  "raises (outfile W) (Str m) = None \<Longrightarrow>
   emit L W m = (None, W\<lparr>outfile := file_flush ((outfile W)\<lparr>written := written (outfile W) @ [Str m]\<rparr>)\<rparr>)"
  by (simp add: emit_def file_write_def)

lemma emit_fallback:
  assumes "raises (outfile W) (Str m) = Some UnicodeEncodeError"
    and "sink_encoding (outfile W) = None \<or> sink_encoding (outfile W) = Some [] \<or>
         (\<exists>enc. sink_encoding (outfile W) = Some enc \<and> encode L m enc = Inl UnicodeEncodeError)"
  shows "emit L W m = (Some (NameError ''markupmsg''), W)"
  using assms by (auto simp: emit_def file_write_def fallback_def)

lemma tw_write_plain:
  assumes "msg \<noteq> []" and "raises (outfile W) (Str msg) = None"
  shows "tw_write L W msg [] =
     (None, W\<lparr>current_line := line_after L (current_line W) msg,
              outfile := file_flush ((outfile W)\<lparr>written := written (outfile W) @ [Str msg]\<rparr>)\<rparr>)"
  using assms
  by (simp add: tw_write_def Let_def emit_def file_write_def line_after_def last_rsplit1 display_width_spec)

lemma tw_write_no_markup:
  "\<not> hasmarkup W \<Longrightarrow> tw_write L W msg kw = tw_write L W msg []"
  by (simp add: tw_write_def Let_def)

lemma str_nat_1: "str_nat (Suc 0) = [49]"
  using str_nat.simps [of 1] by simp

lemma markup_bold: "markup msg [(''bold'', True)] = Inr ([27, 91, 49, 109] @ msg @ [27, 91, 48, 109])"
  by (simp add: markup_def esctable_def str_nat_1)

lemma tw_write_markup:
  assumes "hasmarkup W" "msg \<noteq> []" "kw \<noteq> []" "markup msg kw = Inr m"
    and "raises (outfile W) (Str m) = None"
  shows "tw_write L W msg kw =
     (None, W\<lparr>current_line := line_after L (current_line W) msg,
              outfile := file_flush ((outfile W)\<lparr>written := written (outfile W) @ [Str m]\<rparr>)\<rparr>)"
proof -
  let ?W1 = "W\<lparr>current_line := line_after L (current_line W) msg\<rparr>"
  have "tw_write L W msg kw = emit L ?W1 m"
    using assms(1-4)
    by (simp add: tw_write_def Let_def line_after_def last_rsplit1 display_width_spec)
  moreover have "raises (outfile ?W1) (Str m) = None" using assms(5) by simp
  ultimately show ?thesis by (simp add: emit_ok)
qed

lemma collect_esc_unknown:
  "(name, v) \<in> set kw \<Longrightarrow> map_of esctable name = None \<Longrightarrow>
   \<exists>bad. collect_esc kw = Inl (ValueError_markup bad) \<and> (\<exists>b. (bad, b) \<in> set kw) \<and> map_of esctable bad = None"
proof (induction kw)
  case Nil
  then show ?case by simp
next
  case (Cons a kw)
  obtain n b where a: "a = (n, b)" by (cases a)
  show ?case
  proof (cases "map_of esctable n")
    case None
    then show ?thesis by (auto simp: a)
  next
    case (Some cod)
    with Cons.prems a have "(name, v) \<in> set kw" by auto
    from Cons.IH [OF this Cons.prems(2)] Some show ?thesis by (auto simp: a)
  qed
qed

subsection \<open>The separator line\<close>

lemma length_py_mul: "int (length (py_mul s n)) = int (length s) * max n 0"
  by (simp add: py_mul_def length_concat sum_list_replicate max_def)

lemma length_rstrip_le: "length (rstrip L s) \<le> length s"
  using length_dropWhile_le [of "isspace L" "rev s"] by (simp add: rstrip_def)

lemma mult_div_le_int: "0 < (l::int) \<Longrightarrow> l * (fw div l) \<le> fw"
  using mult_div_mod_eq [of l fw] pos_mod_sign [of l fw] by linarith

lemma sep_line_None:
  assumes "sepchar \<noteq> []"
  shows "\<exists>line. sep_line L win sepchar None w = Inr line \<and>
           int (length line) =
             plain_length (int (length sepchar)) (int (length (rstrip L sepchar)))
               (if win then w - 1 else w)"
  using assms by (simp add: sep_line_def Let_def plain_length_def length_py_mul)

lemma plain_length_neg: "0 < l \<Longrightarrow> 0 \<le> k \<Longrightarrow> fw < 0 \<Longrightarrow> plain_length l k fw = 0"
proof -
  assume l: "0 < l" and k: "0 \<le> k" and fw: "fw < 0"
  from l fw have "fw div l < 0" by (simp add: div_neg_pos_less0)
  then have "max (fw div l) 0 = 0" by simp
  with k fw show ?thesis by (simp add: plain_length_def)
qed

lemma plain_length_nonneg: "0 < l \<Longrightarrow> 0 \<le> k \<Longrightarrow> 0 \<le> plain_length l k fw"
  by (simp add: plain_length_def)

lemma plain_length_le: "0 < l \<Longrightarrow> 0 \<le> k \<Longrightarrow> 0 \<le> fw \<Longrightarrow> plain_length l k fw \<le> fw"
proof -
  assume l: "0 < l" and k: "0 \<le> k" and fw: "0 \<le> fw"
  from l fw have q: "0 \<le> fw div l" by (simp add: pos_imp_zdiv_nonneg_iff)
  have "l * (fw div l) \<le> fw" using l by (rule mult_div_le_int)
  with q show ?thesis by (simp add: plain_length_def max_def)
qed

lemma plain_length_mono:
  assumes l: "0 < l" and k: "0 \<le> k" "k \<le> l" and le: "fw \<le> fw'"
  shows "plain_length l k fw \<le> plain_length l k fw'"
proof (cases "fw < 0")
  case True
  with l k show ?thesis by (simp add: plain_length_neg plain_length_nonneg)
next
  case False
  then have fw: "0 \<le> fw" and fw': "0 \<le> fw'" using le by auto
  define q where "q = fw div l"
  define q' where "q' = fw' div l"
  have q0: "0 \<le> q" using l fw by (simp add: q_def pos_imp_zdiv_nonneg_iff)
  have qq: "q \<le> q'" unfolding q_def q'_def using le l by (rule zdiv_mono1)
  have q'0: "0 \<le> q'" using q0 qq by simp
  have lo: "l * q \<le> fw" unfolding q_def using l by (rule mult_div_le_int)
  have lo': "l * q' \<le> fw'" unfolding q'_def using l by (rule mult_div_le_int)
  have f: "plain_length l k fw = (if l * q + k \<le> fw then l * q + k else l * q)"
    using q0 by (simp add: plain_length_def q_def max_def)
  have f': "plain_length l k fw' = (if l * q' + k \<le> fw' then l * q' + k else l * q')"
    using q'0 by (simp add: plain_length_def q'_def max_def)
  show ?thesis
  proof (cases "q = q'")
    case True
    with f f' le k show ?thesis by auto
  next
    case False
    with qq have "q + 1 \<le> q'" by simp
    with l have "l * (q + 1) \<le> l * q'" by (simp add: mult_left_mono)
    then have "l * q + l \<le> l * q'" by (simp add: distrib_left)
    with f f' k show ?thesis by auto
  qed
qed

lemma length_titled: "int (length (titled fill t)) = 2 * int (length fill) + int (length t) + 2"
  by (simp add: titled_def)

lemma sep_line_Some:
  "sepchar \<noteq> [] \<Longrightarrow>
   sep_line L win sepchar (Some title) w =
     Inr (titled (py_mul sepchar (fill_count (resolved_width win w) title sepchar)) title @
          (if int (length (titled (py_mul sepchar (fill_count (resolved_width win w) title sepchar)) title)) +
              int (length (rstrip L sepchar)) \<le> resolved_width win w
           then rstrip L sepchar else []))"
  by (simp add: sep_line_def Let_def titled_def fill_count_def resolved_width_def)

lemma fill_count_fits:
  assumes l: "sepchar \<noteq> []" and fw: "int (length title) + 2 + 2 * int (length sepchar) \<le> fw"
  shows "1 \<le> fill_count fw title sepchar"
    and "2 * int (length sepchar) * fill_count fw title sepchar + int (length title) + 2 \<le> fw"
proof -
  let ?d = "2 * int (length sepchar)" and ?a = "fw - int (length title) - 2"
  have d: "0 < ?d" using l by simp
  have "?d div ?d \<le> ?a div ?d" using fw d by (intro zdiv_mono1) simp_all
  then have one: "1 \<le> ?a div ?d" using d by simp
  then have N: "fill_count fw title sepchar = ?a div ?d" by (simp add: fill_count_def)
  show "1 \<le> fill_count fw title sepchar" using one N by simp
  have "?d * (?a div ?d) \<le> ?a" using d by (rule mult_div_le_int)
  then show "?d * fill_count fw title sepchar + int (length title) + 2 \<le> fw"
    using N by simp
qed

lemma fill_count_tight:
  assumes l: "sepchar \<noteq> []" and fw: "fw < int (length title) + 2 + 2 * int (length sepchar)"
  shows "fill_count fw title sepchar = 1"
proof -
  let ?d = "2 * int (length sepchar)" and ?a = "fw - int (length title) - 2"
  have d: "0 < ?d" using l by simp
  have "?a \<le> ?d - 1" using fw by simp
  then have "?a div ?d \<le> (?d - 1) div ?d" using d by (intro zdiv_mono1) simp_all
  moreover have "(?d - 1) div ?d = 0" using d by (intro div_pos_pos_trivial) simp_all
  ultimately show ?thesis by (simp add: fill_count_def)
qed

lemma sep_emits:
  assumes line: "sep_line L (IS_WINDOWS P) sepchar title fw = Inr line" "line \<noteq> []"
    and ok: "\<forall>d. raises (outfile W) d = None"
  shows "fst (sep L P W sepchar title (Some fw) []) = None"
    and "written (outfile (snd (sep L P W sepchar title (Some fw) []))) =
           written (outfile W) @ [Str line, Str [newline]]"
  using assms
  by (simp_all add: sep_def tw_write_plain file_flush_def)

lemma py_mul_3: "py_mul s 3 = s @ s @ s"
  by (simp add: py_mul_def eval_nat_numeral)

lemma sep_line_example:
  assumes "\<not> isspace L 45"
  shows "sep_line L False (utext ''-'') (Some (utext ''X'')) 10 = Inr (utext ''--- X ----'')"
    and "sep_line L True (utext ''-'') (Some (utext ''X'')) 10 = Inr (utext ''--- X ---'')"
  using assms by (simp_all add: sep_line_def utext_def rstrip_def py_mul_3 Let_def)

section \<open>The claims\<close>

text \<open>
  Claim C1. After every sequence of \<^verbatim>\<open>write\<close> calls the current-line state is the one the
  rule of the specification gives, call by call: a message with a line terminator replaces
  \<open>chars\<close> and \<open>width\<close> by the length and the display width of the substring after its
  last line terminator, a message without one adds them, and an empty message changes
  nothing. So \<open>chars\<close> is the length of the unterminated tail of everything written. With
  a library that puts \<^verbatim>\<open>e\<close> in class Na and normalises it and the empty text to themselves,
  writing \<^verbatim>\<open>"ab"\<close>, \<^verbatim>\<open>"cd\n"\<close>, \<^verbatim>\<open>"e"\<close> leaves \<open>chars = 1\<close>, \<open>width = 1\<close>.
\<close>

theorem current_line_tracks_tail:
  "current_line (snd (tw_write L W msg kw)) = line_after L (current_line W) msg \<and>
   current_line (writes L W calls) = foldl (line_after L) (current_line W) (map fst calls) \<and>
   chars (current_line (writes L W calls)) =
     (if newline \<in> set (concat (map fst calls))
      then int (length (after_last newline (concat (map fst calls))))
      else chars (current_line W) + int (length (concat (map fst calls)))) \<and>
   (normalize_NFC L [] = [] \<and> normalize_NFC L (utext ''e'') = utext ''e'' \<and>
    east_asian_width L (of_char CHR ''e'') = ''Na'' \<longrightarrow>
      current_line (writes L W [(utext ''ab'', k1), (utext ''cd'' @ [newline], k2), (utext ''e'', k3)])
        = \<lparr>chars = 1, width = 1\<rparr>)"
proof (intro conjI impI)
  show "current_line (snd (tw_write L W msg kw)) = line_after L (current_line W) msg"
    by (rule tw_write_current_line)
  show "current_line (writes L W calls) = foldl (line_after L) (current_line W) (map fst calls)"
    by (rule writes_current_line)
  show "chars (current_line (writes L W calls)) =
     (if newline \<in> set (concat (map fst calls))
      then int (length (after_last newline (concat (map fst calls))))
      else chars (current_line W) + int (length (concat (map fst calls))))"
    by (rule writes_chars)
next
  assume a: "normalize_NFC L [] = [] \<and> normalize_NFC L (utext ''e'') = utext ''e'' \<and>
    east_asian_width L (of_char CHR ''e'') = ''Na''"
  then have z: "spec_width L [] = 0" by (simp add: spec_width_Nil)
  have cd: "line_after L cl (utext ''cd'' @ [newline]) = \<lparr>chars = 0, width = 0\<rparr>" for cl
    by (simp add: line_after_def after_last_def z)
  have e: "after_last newline (utext ''e'') = utext ''e''"
    by (intro after_last_notin) (simp add: utext_def newline_def)
  have w: "spec_width L (utext ''e'') = 1"
    using a by (simp add: spec_width_def) (simp add: utext_def)
  have ne: "utext ''e'' \<noteq> []" "newline \<notin> set (utext ''e'')"
    by (simp_all add: utext_def newline_def)
  have e1: "line_after L \<lparr>chars = 0, width = 0\<rparr> (utext ''e'') = \<lparr>chars = 1, width = 1\<rparr>"
    using ne by (simp add: line_after_def e w) (simp add: utext_def)
  show "current_line (writes L W [(utext ''ab'', k1), (utext ''cd'' @ [newline], k2), (utext ''e'', k3)])
        = \<lparr>chars = 1, width = 1\<rparr>"
    unfolding writes_current_line by (simp add: cd e1)
qed

text \<open>The theorem of claim C1 at a concrete input.\<close>

theorem current_line_tracks_tail_witness:
  "current_line (writes ref_pylib (new_writer False any_sink)
      [(utext ''ab'', []), (utext ''cd'' @ [newline], []), (utext ''e'', [(''bold'', True)])])
     = \<lparr>chars = 1, width = 1\<rparr>"
proof -
  have h: "normalize_NFC ref_pylib [] = [] \<and> normalize_NFC ref_pylib (utext ''e'') = utext ''e'' \<and>
    east_asian_width ref_pylib (of_char CHR ''e'') = ''Na''"
    by (simp add: ref_pylib_def ref_east_asian_width_def)
  show ?thesis
    using current_line_tracks_tail [of ref_pylib "new_writer False any_sink" "[]" "[]" "[]" "[]" "[]" "[(''bold'', True)]"] h
    by blast
qed

text \<open>
  Claim C2. For every non-empty message the width stored in (with a line terminator) or
  added to (without one) \<open>current_line.width\<close> is the sum, over the NFC-normalised
  fragment after the last line terminator, of 2 for a character of class F or W and 1 for
  any other class, the unclassified ones included. With a library that puts U+6F22 in class
  W and normalises it to itself, writing it on a fresh line gives \<open>width = 2\<close>, \<open>chars = 1\<close>.
\<close>

theorem width_by_east_asian_class:
  "(msg \<noteq> [] \<longrightarrow>
      width (current_line (snd (tw_write L W msg kw))) =
        (if newline \<in> set msg then 0 else width (current_line W)) +
        sum_list (map (\<lambda>c. if east_asian_width L c = ''F'' \<or> east_asian_width L c = ''W''
                              then 2 else 1)
                      (normalize_NFC L (after_last newline msg)))) \<and>
   (east_asian_width L 0x6F22 = ''W'' \<and> normalize_NFC L [0x6F22] = [0x6F22] \<and>
    current_line W = CurrentLine_init \<longrightarrow>
      current_line (snd (tw_write L W [0x6F22] kw)) = \<lparr>chars = 1, width = 2\<rparr>)"
proof (intro conjI impI)
  assume "msg \<noteq> []"
  then show "width (current_line (snd (tw_write L W msg kw))) =
        (if newline \<in> set msg then 0 else width (current_line W)) +
        sum_list (map (\<lambda>c. if east_asian_width L c = ''F'' \<or> east_asian_width L c = ''W''
                              then 2 else 1)
                      (normalize_NFC L (after_last newline msg)))"
    by (simp add: tw_write_current_line line_after_def spec_width_def)
next
  assume a: "east_asian_width L 0x6F22 = ''W'' \<and> normalize_NFC L [0x6F22] = [0x6F22] \<and>
    current_line W = CurrentLine_init"
  have f: "after_last newline [0x6F22] = [0x6F22]"
    by (intro after_last_notin) (simp add: newline_def)
  have n: "newline \<notin> set [0x6F22]" by (simp add: newline_def)
  show "current_line (snd (tw_write L W [0x6F22] kw)) = \<lparr>chars = 1, width = 2\<rparr>"
    using a n by (simp add: tw_write_current_line line_after_def f spec_width_def CurrentLine_init_def)
qed

text \<open>The theorem of claim C2 at a concrete input.\<close>

theorem width_by_east_asian_class_witness:
  "current_line (snd (tw_write ref_pylib (new_writer False any_sink) [0x6F22] [])) = \<lparr>chars = 1, width = 2\<rparr>"
proof -
  have h: "east_asian_width ref_pylib 0x6F22 = ''W'' \<and> normalize_NFC ref_pylib [0x6F22] = [0x6F22] \<and>
    current_line (new_writer False any_sink) = CurrentLine_init"
    by (simp add: ref_pylib_def ref_east_asian_width_def new_writer_def)
  show ?thesis
    using width_by_east_asian_class [of "[]" ref_pylib "new_writer False any_sink" "[]"] h by blast
qed

text \<open>
  Claim C3 says that, when the direct write and the re-encoding both fail, \<^verbatim>\<open>write\<close> writes
  the escaped message. The code does not: the fallback names \<^verbatim>\<open>markupmsg\<close>, which is bound
  nowhere. On a sink that rejects U+00E9, with no \<^verbatim>\<open>encoding\<close> or with the \<^verbatim>\<open>ascii\<close> one,
  \<^verbatim>\<open>write(u"\xe9")\<close> raises \<^verbatim>\<open>NameError\<close> and the writer keeps its sink as it was, with
  nothing written.
\<close>

theorem fallback_raises_NameError:
  "tw_write ref_pylib (new_writer False bare_sink) [0xE9] [] =
     (Some (NameError ''markupmsg''),
      (new_writer False bare_sink)\<lparr>current_line := \<lparr>chars = 1, width = 1\<rparr>\<rparr>) \<and>
   tw_write ref_pylib (new_writer False ascii_sink) [0xE9] [] =
     (Some (NameError ''markupmsg''),
      (new_writer False ascii_sink)\<lparr>current_line := \<lparr>chars = 1, width = 1\<rparr>\<rparr>) \<and>
   written (outfile (new_writer False bare_sink)) = [] \<and>
   written (outfile (new_writer False ascii_sink)) = []"
  by (simp add: tw_write_def Let_def new_writer_def bare_sink_def ascii_sink_def emit_def
      file_write_def fallback_def ascii_raises_def rsplit1_def newline_def display_width_def
      ref_pylib_def ref_encode_def ref_east_asian_width_def char_width_def CurrentLine_init_def)

text \<open>
  Claim C4 as stated fails off Windows: the line of \<^verbatim>\<open>sep("-", title="X", fullwidth=10)\<close> is
  \<^verbatim>\<open>"--- X ----"\<close>, with three separators left of the title and four right of it.
\<close>

theorem sep_title_example_not_symmetric:
  "written (outfile (snd (sep ref_pylib no_tty (new_writer False any_sink)
       (utext ''-'') (Some (utext ''X'')) (Some 10) []))) = [Str (utext ''--- X ----''), Str [newline]] \<and>
   written (outfile (snd (sep ref_pylib no_tty (new_writer False any_sink)
       (utext ''-'') (Some (utext ''X'')) (Some 10) []))) \<noteq> [Str (utext ''--- X ---''), Str [newline]]"
proof -
  have s: "\<not> isspace ref_pylib 45" by (simp add: ref_pylib_def ref_isspace_def)
  have l: "sep_line ref_pylib (IS_WINDOWS no_tty) (utext ''-'') (Some (utext ''X'')) 10 = Inr (utext ''--- X ----'')"
    using sep_line_example(1) [OF s] by (simp add: no_tty_def)
  have ne: "utext ''--- X ----'' \<noteq> []" by (simp add: utext_def)
  have ok: "\<forall>d. raises (outfile (new_writer False any_sink)) d = None"
    by (simp add: new_writer_def any_sink_def)
  have "written (outfile (snd (sep ref_pylib no_tty (new_writer False any_sink)
       (utext ''-'') (Some (utext ''X'')) (Some 10) []))) = [Str (utext ''--- X ----''), Str [newline]]"
    using sep_emits(2) [OF l ne ok] by (simp add: new_writer_def any_sink_def)
  then show ?thesis by (simp add: utext_def)
qed

text \<open>
  Claim C4, amended. The titled line is \<open>fill\<close>, a space, the title, a space, the same
  \<open>fill\<close> again, and then one more \<^verbatim>\<open>sepchar.rstrip()\<close> exactly when that still fits in the
  resolved width: the fills are equal, the right side may be longer by the extra separator.
  On a sink that takes every datum, \<^verbatim>\<open>sep("-", title="X", fullwidth=10)\<close> writes
  \<^verbatim>\<open>"--- X ----"\<close> (ten characters) and then \<^verbatim>\<open>"\n"\<close>; on Windows, where the width is one
  less, it writes \<^verbatim>\<open>"--- X ---"\<close> and then \<^verbatim>\<open>"\n"\<close>.
\<close>

theorem sep_title_fills_and_extra:
  "(sepchar \<noteq> [] \<longrightarrow>
     (\<exists>fill. sep_line L win sepchar (Some title) w =
        Inr (fill @ [32] @ title @ [32] @ fill @
             (if int (length (fill @ [32] @ title @ [32] @ fill)) + int (length (rstrip L sepchar))
                   \<le> (if win then w - 1 else w)
              then rstrip L sepchar else [])))) \<and>
   (\<not> isspace L 45 \<and> (\<forall>d. raises (outfile W) d = None) \<longrightarrow>
      fst (sep L P W (utext ''-'') (Some (utext ''X'')) (Some 10) []) = None \<and>
      written (outfile (snd (sep L P W (utext ''-'') (Some (utext ''X'')) (Some 10) []))) =
        written (outfile W) @
          [Str (if IS_WINDOWS P then utext ''--- X ---'' else utext ''--- X ----''), Str [newline]])"
proof (intro conjI impI)
  assume "sepchar \<noteq> []"
  then show "\<exists>fill. sep_line L win sepchar (Some title) w =
        Inr (fill @ [32] @ title @ [32] @ fill @
             (if int (length (fill @ [32] @ title @ [32] @ fill)) + int (length (rstrip L sepchar))
                   \<le> (if win then w - 1 else w)
              then rstrip L sepchar else []))"
    using sep_line_Some [of sepchar L win title w]
    by (intro exI [of _ "py_mul sepchar (fill_count (resolved_width win w) title sepchar)"])
       (simp add: titled_def resolved_width_def)
next
  assume a: "\<not> isspace L 45 \<and> (\<forall>d. raises (outfile W) d = None)"
  let ?line = "if IS_WINDOWS P then utext ''--- X ---'' else utext ''--- X ----''"
  have line: "sep_line L (IS_WINDOWS P) (utext ''-'') (Some (utext ''X'')) 10 = Inr ?line"
    using a sep_line_example [of L] by (cases "IS_WINDOWS P") simp_all
  have ne: "?line \<noteq> []" by (simp add: utext_def)
  from a have ok: "\<forall>d. raises (outfile W) d = None" by simp
  show "fst (sep L P W (utext ''-'') (Some (utext ''X'')) (Some 10) []) = None"
    using sep_emits(1) [OF line ne ok] .
  show "written (outfile (snd (sep L P W (utext ''-'') (Some (utext ''X'')) (Some 10) []))) =
        written (outfile W) @ [Str ?line, Str [newline]]"
    using sep_emits(2) [OF line ne ok] .
qed

text \<open>The theorem of claim C4 at a concrete input.\<close>

theorem sep_title_fills_and_extra_witness:
  "fst (sep ref_pylib windows (new_writer False any_sink) (utext ''-'') (Some (utext ''X'')) (Some 10) []) = None \<and>
   written (outfile (snd (sep ref_pylib windows (new_writer False any_sink)
       (utext ''-'') (Some (utext ''X'')) (Some 10) []))) = [Str (utext ''--- X ---''), Str [newline]]"
proof -
  have h: "\<not> isspace ref_pylib 45 \<and> (\<forall>d. raises (outfile (new_writer False any_sink)) d = None)"
    by (simp add: ref_pylib_def ref_isspace_def new_writer_def any_sink_def)
  have w: "IS_WINDOWS windows" "written (outfile (new_writer False any_sink)) = []"
    by (simp_all add: windows_def new_writer_def any_sink_def)
  show ?thesis
    using sep_title_fills_and_extra [of "utext ''-''" ref_pylib True "utext ''X''" 10 "new_writer False any_sink" windows] h w
    by simp
qed

text \<open>
  Claim C5 as stated fails at width 0: \<^verbatim>\<open>sep("-", title="X", fullwidth=0)\<close> builds
  \<^verbatim>\<open>"- X -"\<close>, five characters.
\<close>

theorem sep_title_longer_than_width:
  "sep_line ref_pylib False (utext ''-'') (Some (utext ''X'')) 0 = Inr (utext ''- X -'') \<and>
   \<not> int (length (utext ''- X -'')) \<le> 0"
  by (simp add: sep_line_def Let_def utext_def py_mul_def rstrip_def ref_pylib_def ref_isspace_def)

text \<open>
  Claim C5, amended. For a non-empty \<^verbatim>\<open>sepchar\<close> the titled line has \<open>N\<close> repetitions of it on
  each side of the title, \<open>N = max ((width - len title - 2) div (2 * len sepchar)) 1\<close> on
  the resolved width, followed by nothing or by \<^verbatim>\<open>sepchar.rstrip()\<close>. Its length is at most the
  resolved width when \<open>len title + 2 + 2 * len sepchar\<close> is; otherwise \<open>N = 1\<close>, nothing is
  appended, and the line of length \<open>2 * len sepchar + len title + 2\<close> is longer than the
  resolved width.
\<close>

theorem sep_title_fill_count_and_length:
  assumes "sepchar \<noteq> []"
  shows "\<exists>extra.
     sep_line L win sepchar (Some title) w =
       Inr (titled (py_mul sepchar (fill_count (resolved_width win w) title sepchar)) title @ extra) \<and>
     (extra = [] \<or> extra = rstrip L sepchar) \<and>
     (if int (length title) + 2 + 2 * int (length sepchar) \<le> resolved_width win w
      then int (length (titled (py_mul sepchar (fill_count (resolved_width win w) title sepchar)) title @ extra))
             \<le> resolved_width win w
      else fill_count (resolved_width win w) title sepchar = 1 \<and> extra = [] \<and>
           resolved_width win w < 2 * int (length sepchar) + int (length title) + 2)"
proof (cases "int (length title) + 2 + 2 * int (length sepchar) \<le> resolved_width win w")
  case True
  let ?N = "fill_count (resolved_width win w) title sepchar"
  have N: "1 \<le> ?N" "2 * int (length sepchar) * ?N + int (length title) + 2 \<le> resolved_width win w"
    using fill_count_fits [OF assms True] by simp_all
  have len: "int (length (titled (py_mul sepchar ?N) title)) = 2 * int (length sepchar) * ?N + int (length title) + 2"
    using N(1) by (simp add: length_titled length_py_mul max_def)
  show ?thesis
    using True N(2) len by (simp add: sep_line_Some [OF assms])
next
  case False
  then have fw: "resolved_width win w < int (length title) + 2 + 2 * int (length sepchar)" by simp
  have N: "fill_count (resolved_width win w) title sepchar = 1"
    using fill_count_tight [OF assms fw] .
  show ?thesis
    using False fw by (simp add: sep_line_Some [OF assms] N length_titled length_py_mul)
qed

text \<open>The theorem of claim C5 at a concrete input.\<close>

theorem sep_title_fill_count_and_length_witness:
  "\<exists>extra. sep_line ref_pylib False (utext ''ab'') (Some (utext ''X'')) 12 = Inr (utext ''abab X abab'' @ extra) \<and>
     (extra = [] \<or> extra = utext ''ab'') \<and>
     int (length (utext ''abab X abab'' @ extra)) \<le> 12"
proof -
  have ne: "utext ''ab'' \<noteq> []" by (simp add: utext_def)
  have N: "fill_count (resolved_width False 12) (utext ''X'') (utext ''ab'') = 2"
    by (simp add: fill_count_def resolved_width_def utext_def)
  have t: "titled (py_mul (utext ''ab'') 2) (utext ''X'') = utext ''abab X abab''"
    by (simp add: titled_def py_mul_def utext_def eval_nat_numeral)
  have s: "rstrip ref_pylib (utext ''ab'') = utext ''ab''"
    by (simp add: rstrip_def utext_def ref_pylib_def ref_isspace_def)
  have r: "resolved_width False 12 = 12" "int (length (utext ''X'')) + 2 + 2 * int (length (utext ''ab'')) \<le> 12"
    by (simp_all add: resolved_width_def utext_def)
  show ?thesis
    using sep_title_fill_count_and_length [OF ne, of ref_pylib False "utext ''X''" 12] r
    unfolding N t s by simp
qed

text \<open>
  Claim C6. For a non-empty \<^verbatim>\<open>sepchar\<close> and a requested width \<open>w \<ge> 0\<close> the untitled line is
  at most \<open>w\<close> long, and it is no longer than the line for any larger width \<open>w'\<close>.
\<close>

theorem sep_plain_length_bounded_monotone:
  assumes "sepchar \<noteq> []" and "0 \<le> w" and "w \<le> w'"
  shows "\<exists>line line'.
           sep_line L win sepchar None w = Inr line \<and>
           sep_line L win sepchar None w' = Inr line' \<and>
           int (length line) \<le> w \<and> length line \<le> length line'"
proof -
  let ?l = "int (length sepchar)" and ?k = "int (length (rstrip L sepchar))"
  let ?fw = "if win then w - 1 else w" and ?fw' = "if win then w' - 1 else w'"
  have l: "0 < ?l" using assms(1) by simp
  have k: "0 \<le> ?k" "?k \<le> ?l" using length_rstrip_le [of L sepchar] by simp_all
  obtain line where line: "sep_line L win sepchar None w = Inr line"
      "int (length line) = plain_length ?l ?k ?fw"
    using sep_line_None [OF assms(1), of L win w] by blast
  obtain line' where line': "sep_line L win sepchar None w' = Inr line'"
      "int (length line') = plain_length ?l ?k ?fw'"
    using sep_line_None [OF assms(1), of L win w'] by blast
  have "plain_length ?l ?k ?fw \<le> w"
  proof (cases "?fw < 0")
    case True
    then show ?thesis using plain_length_neg [OF l k(1) True] assms(2) by simp
  next
    case False
    then have "plain_length ?l ?k ?fw \<le> ?fw" using plain_length_le [OF l k(1)] by simp
    then show ?thesis by (simp split: if_splits)
  qed
  moreover have "plain_length ?l ?k ?fw \<le> plain_length ?l ?k ?fw'"
    using assms(3) by (intro plain_length_mono [OF l k]) simp
  ultimately show ?thesis using line line' by simp
qed

text \<open>The theorem of claim C6 at a concrete input.\<close>

theorem sep_plain_length_bounded_monotone_witness:
  "\<exists>line line'.
     sep_line ref_pylib False (utext ''_ '') None 7 = Inr line \<and>
     sep_line ref_pylib False (utext ''_ '') None 9 = Inr line' \<and>
     int (length line) \<le> 7 \<and> length line \<le> length line'"
proof -
  have ne: "utext ''_ '' \<noteq> []" by (simp add: utext_def)
  show ?thesis using sep_plain_length_bounded_monotone [OF ne, of 7 9 ref_pylib False] by simp
qed

text \<open>
  Claim C7 as stated fails for the override 0: the getter returns 0, which is not positive.
\<close>

theorem fullwidth_override_zero:
  "\<not> (\<exists>n. fullwidth ref_pylib no_tty (fullwidth_setter (new_writer False any_sink) 0) = Inr n \<and> 1 \<le> n)"
  by (simp add: fullwidth_def fullwidth_setter_def)

text \<open>
  Claim C7, amended. The getter returns the override as it is once the setter has run,
  whatever its value. With no override: a queried width other than 0 gives 80 when it is
  below 40 and itself otherwise, so at least 40; a queried width of 0, or a query that
  raised outside \<^verbatim>\<open>py.builtin._sysex\<close>, gives 80 when \<^verbatim>\<open>COLUMNS\<close> is unset and
  \<^verbatim>\<open>int(COLUMNS)\<close> otherwise (a \<^verbatim>\<open>ValueError\<close> when that is no integer); a query that raised
  inside \<^verbatim>\<open>py.builtin._sysex\<close> is raised again.
\<close>

theorem fullwidth_result:
  "fullwidth L P (fullwidth_setter W v) = Inr v \<and>
   (terminal_width W = None \<and> terminal_size P = Inr w \<and> w \<noteq> 0 \<longrightarrow>
      fullwidth L P W = Inr (if w < 40 then 80 else w) \<and> 40 \<le> (if w < 40 then 80 else w)) \<and>
   (terminal_width W = None \<and>
    (terminal_size P = Inr 0 \<or> (\<exists>e. terminal_size P = Inl e \<and> \<not> sysex e)) \<longrightarrow>
      fullwidth L P W =
        (case COLUMNS P of
           None \<Rightarrow> Inr 80
         | Some s \<Rightarrow> (case py_int L s of None \<Rightarrow> Inl (ValueError_int s) | Some n \<Rightarrow> Inr n))) \<and>
   (terminal_width W = None \<and> terminal_size P = Inl e \<and> sysex e \<longrightarrow> fullwidth L P W = Inl e)"
  by (auto simp: fullwidth_def fullwidth_setter_def)

text \<open>The theorem of claim C7 at a concrete input.\<close>

theorem fullwidth_result_witness:
  "fullwidth ref_pylib no_tty (fullwidth_setter (new_writer False any_sink) 132) = Inr 132 \<and>
   fullwidth ref_pylib windows (new_writer False any_sink) = Inr 120 \<and>
   fullwidth ref_pylib no_tty (new_writer False any_sink) = Inr 80"
proof -
  have a: "terminal_width (new_writer False any_sink) = None \<and> terminal_size windows = Inr 120 \<and> (120::int) \<noteq> 0"
    by (simp add: new_writer_def windows_def)
  have b: "terminal_width (new_writer False any_sink) = None \<and>
    (terminal_size no_tty = Inr 0 \<or> (\<exists>e. terminal_size no_tty = Inl e \<and> \<not> sysex e))"
    by (simp add: new_writer_def no_tty_def)
  have c: "COLUMNS no_tty = None" by (simp add: no_tty_def)
  show ?thesis
    using fullwidth_result [of ref_pylib no_tty "new_writer False any_sink" 132 120]
          fullwidth_result [of ref_pylib windows "new_writer False any_sink" 0 120] a b c
    by simp
qed

text \<open>
  Claim C8 as stated fails with markup disabled: \<^verbatim>\<open>write("x", fuchsia=True)\<close> returns
  normally and writes \<^verbatim>\<open>"x"\<close>.
\<close>

theorem unknown_markup_ignored_without_markup:
  "fst (tw_write ref_pylib (new_writer False any_sink) (utext ''x'') [(''fuchsia'', True)]) = None \<and>
   written (outfile (snd (tw_write ref_pylib (new_writer False any_sink) (utext ''x'') [(''fuchsia'', True)])))
     = [Str (utext ''x'')]"
  by (simp add: tw_write_def Let_def new_writer_def any_sink_def emit_def file_write_def file_flush_def utext_def)

text \<open>
  Claim C8, amended. With markup enabled and a non-empty message, a call with a flag name
  that is not in the table raises \<^verbatim>\<open>ValueError("unknown markup: ...")\<close> for a flag of the call
  that is not in the table, whatever the flag's value, and leaves the sink as it was;
  \<^verbatim>\<open>write("x", fuchsia=True)\<close> raises it for \<^verbatim>\<open>fuchsia\<close>. With markup disabled the flags are
  not looked at: the call does what the call without flags does. An empty message returns
  at once.
\<close>

theorem unknown_markup_raises_with_markup:
  "(hasmarkup W \<and> msg \<noteq> [] \<and> (name, v) \<in> set kw \<and> map_of esctable name = None \<longrightarrow>
      (\<exists>bad. fst (tw_write L W msg kw) = Some (ValueError_markup bad) \<and>
              (\<exists>b. (bad, b) \<in> set kw) \<and> map_of esctable bad = None) \<and>
      outfile (snd (tw_write L W msg kw)) = outfile W) \<and>
   (hasmarkup W \<longrightarrow>
      fst (tw_write L W (utext ''x'') [(''fuchsia'', True)]) = Some (ValueError_markup ''fuchsia'')) \<and>
   (\<not> hasmarkup W \<longrightarrow> tw_write L W msg kw = tw_write L W msg []) \<and>
   tw_write L W [] kw = (None, W)"
proof (intro conjI impI)
  assume a: "hasmarkup W \<and> msg \<noteq> [] \<and> (name, v) \<in> set kw \<and> map_of esctable name = None"
  then obtain bad where bad: "collect_esc kw = Inl (ValueError_markup bad)"
      "(\<exists>b. (bad, b) \<in> set kw)" "map_of esctable bad = None"
    using collect_esc_unknown [of name v kw] by blast
  from a have kw: "kw \<noteq> []" by auto
  have r: "tw_write L W msg kw =
      (Some (ValueError_markup bad),
       W\<lparr>current_line :=
           (if newline \<in> set msg
            then \<lparr>chars = int (length (last (rsplit1 msg newline))),
                  width = display_width L (last (rsplit1 msg newline))\<rparr>
            else \<lparr>chars = chars (current_line W) + int (length (last (rsplit1 msg newline))),
                  width = width (current_line W) + display_width L (last (rsplit1 msg newline))\<rparr>)\<rparr>)"
    using a kw bad(1) by (simp add: tw_write_def Let_def markup_def)
  show "\<exists>bad. fst (tw_write L W msg kw) = Some (ValueError_markup bad) \<and>
              (\<exists>b. (bad, b) \<in> set kw) \<and> map_of esctable bad = None"
    using r bad by auto
  show "outfile (snd (tw_write L W msg kw)) = outfile W"
    using r by simp
next
  assume "hasmarkup W"
  then show "fst (tw_write L W (utext ''x'') [(''fuchsia'', True)]) = Some (ValueError_markup ''fuchsia'')"
    by (simp add: tw_write_def Let_def markup_def utext_def esctable_def)
next
  assume "\<not> hasmarkup W"
  then show "tw_write L W msg kw = tw_write L W msg []" by (rule tw_write_no_markup)
next
  show "tw_write L W [] kw = (None, W)" by (simp add: tw_write_def)
qed

text \<open>The theorem of claim C8 at a concrete input.\<close>

theorem unknown_markup_raises_with_markup_witness:
  "fst (tw_write ref_pylib (new_writer True any_sink) (utext ''x'') [(''bold'', True), (''fuchsia'', False)])
     = Some (ValueError_markup ''fuchsia'') \<and>
   written (outfile (snd (tw_write ref_pylib (new_writer True any_sink) (utext ''x'') [(''bold'', True), (''fuchsia'', False)]))) = []"
proof -
  have h: "hasmarkup (new_writer True any_sink) \<and> utext ''x'' \<noteq> [] \<and>
        (''fuchsia'', False) \<in> set [(''bold'', True), (''fuchsia'', False)] \<and>
        map_of esctable ''fuchsia'' = None"
    by (simp add: new_writer_def utext_def esctable_def)
  have t: "map_of esctable ''bold'' = Some 1" by (simp add: esctable_def)
  show ?thesis
    using unknown_markup_raises_with_markup [of "new_writer True any_sink" "utext ''x''" "''fuchsia''" False
                "[(''bold'', True), (''fuchsia'', False)]" ref_pylib] h t
    by (auto simp: new_writer_def any_sink_def)
qed

text \<open>
  Claim C9. On a sink that takes the text, \<^verbatim>\<open>write("text", bold=True)\<close> writes exactly
  \<^verbatim>\<open>ESC[1mtextESC[0m\<close> when markup is enabled and exactly \<^verbatim>\<open>text\<close> when it is disabled.
\<close>

theorem bold_escape_sequence:
  "(hasmarkup W \<and> raises (outfile W) (Str ([27] @ utext ''[1mtext'' @ [27] @ utext ''[0m'')) = None \<longrightarrow>
      fst (tw_write L W (utext ''text'') [(''bold'', True)]) = None \<and>
      written (outfile (snd (tw_write L W (utext ''text'') [(''bold'', True)]))) =
        written (outfile W) @ [Str ([27] @ utext ''[1mtext'' @ [27] @ utext ''[0m'')]) \<and>
   (\<not> hasmarkup W \<and> raises (outfile W) (Str (utext ''text'')) = None \<longrightarrow>
      fst (tw_write L W (utext ''text'') [(''bold'', True)]) = None \<and>
      written (outfile (snd (tw_write L W (utext ''text'') [(''bold'', True)]))) =
        written (outfile W) @ [Str (utext ''text'')])"
proof (intro conjI impI)
  let ?m = "[27] @ utext ''[1mtext'' @ [27] @ utext ''[0m''"
  assume a: "hasmarkup W \<and> raises (outfile W) (Str ?m) = None"
  have ne: "utext ''text'' \<noteq> []" by (simp add: utext_def)
  have m: "markup (utext ''text'') [(''bold'', True)] = Inr ?m"
    unfolding markup_bold by (simp add: utext_def)
  have r: "tw_write L W (utext ''text'') [(''bold'', True)] =
     (None, W\<lparr>current_line := line_after L (current_line W) (utext ''text''),
              outfile := file_flush ((outfile W)\<lparr>written := written (outfile W) @ [Str ?m]\<rparr>)\<rparr>)"
    using a by (intro tw_write_markup [OF _ ne _ m]) simp_all
  show "fst (tw_write L W (utext ''text'') [(''bold'', True)]) = None"
    unfolding r by simp
  show "written (outfile (snd (tw_write L W (utext ''text'') [(''bold'', True)]))) =
        written (outfile W) @ [Str ?m]"
    unfolding r by (simp add: file_flush_def)
next
  assume a: "\<not> hasmarkup W \<and> raises (outfile W) (Str (utext ''text'')) = None"
  have ne: "utext ''text'' \<noteq> []" by (simp add: utext_def)
  have r: "tw_write L W (utext ''text'') [(''bold'', True)] =
     (None, W\<lparr>current_line := line_after L (current_line W) (utext ''text''),
              outfile := file_flush ((outfile W)\<lparr>written := written (outfile W) @ [Str (utext ''text'')]\<rparr>)\<rparr>)"
    using a tw_write_plain [OF ne, of W L]
      tw_write_no_markup [of W L "utext ''text''" "[(''bold'', True)]"]
    by simp
  show "fst (tw_write L W (utext ''text'') [(''bold'', True)]) = None"
    unfolding r by simp
  show "written (outfile (snd (tw_write L W (utext ''text'') [(''bold'', True)]))) =
        written (outfile W) @ [Str (utext ''text'')]"
    unfolding r by (simp add: file_flush_def)
qed

text \<open>The theorem of claim C9 at a concrete input.\<close>

theorem bold_escape_sequence_witness:
  "written (outfile (snd (tw_write ref_pylib (new_writer True any_sink) (utext ''text'') [(''bold'', True)])))
     = [Str [27, 91, 49, 109, 116, 101, 120, 116, 27, 91, 48, 109]] \<and>
   written (outfile (snd (tw_write ref_pylib (new_writer False any_sink) (utext ''text'') [(''bold'', True)])))
     = [Str [116, 101, 120, 116]]"
  using bold_escape_sequence [of "new_writer True any_sink" ref_pylib] bold_escape_sequence [of "new_writer False any_sink" ref_pylib]
  by (simp add: new_writer_def any_sink_def utext_def)

text \<open>
  Claim C10. After a call of \<^verbatim>\<open>sep\<close> that returned normally, with or without a title,
  \<open>chars\<close> and \<open>width\<close> of the current line are 0 (for a library whose NFC normalisation
  of the empty text is empty).
\<close>

theorem sep_resets_current_line:
  assumes nfc: "normalize_NFC L [] = []"
    and ok: "fst (sep L P W sepchar title fullwidth_arg kw) = None"
  shows "current_line (snd (sep L P W sepchar title fullwidth_arg kw)) = \<lparr>chars = 0, width = 0\<rparr>"
proof -
  obtain fw where fw: "(case fullwidth_arg of None \<Rightarrow> fullwidth L P W | Some v \<Rightarrow> Inr v) = Inr fw"
    using ok by (auto simp: sep_def split: sum.splits)
  obtain line where line: "sep_line L (IS_WINDOWS P) sepchar title fw = Inr line"
    using ok fw by (auto simp: sep_def split: sum.splits)
  obtain W1 where W1: "tw_write L W line kw = (None, W1)"
    using ok fw line by (auto simp: sep_def split: prod.splits option.splits)
  have "sep L P W sepchar title fullwidth_arg kw = tw_write L W1 [newline] []"
    using fw line W1 by (simp add: sep_def)
  then show ?thesis by (simp add: tw_write_newline spec_width_Nil [OF nfc])
qed

text \<open>
  The theorem of claim C10 on a writer in the middle of a line (\<open>chars = 5\<close>, \<open>width = 7\<close>):
  an untitled rule of width 12, and a titled bold rule of the fallback width 80.
\<close>

theorem sep_resets_current_line_witness:
  "current_line (line_in_progress 5 7) = \<lparr>chars = 5, width = 7\<rparr> \<and>
   fst (sep ref_pylib no_tty (line_in_progress 5 7) (utext ''='') None (Some 12) []) = None \<and>
   current_line (snd (sep ref_pylib no_tty (line_in_progress 5 7) (utext ''='') None (Some 12) []))
     = \<lparr>chars = 0, width = 0\<rparr> \<and>
   fst (sep ref_pylib no_tty (line_in_progress 5 7) (utext ''-'') (Some (utext ''X'')) None [(''bold'', True)]) = None \<and>
   current_line (snd (sep ref_pylib no_tty (line_in_progress 5 7) (utext ''-'') (Some (utext ''X'')) None [(''bold'', True)]))
     = \<lparr>chars = 0, width = 0\<rparr>"
proof -
  have nfc: "normalize_NFC ref_pylib [] = []" by (simp add: ref_pylib_def)
  have ok: "fst (sep ref_pylib no_tty (line_in_progress 5 7) (utext ''='') None (Some 12) []) = None"
    by code_simp
  have ok': "fst (sep ref_pylib no_tty (line_in_progress 5 7) (utext ''-'') (Some (utext ''X'')) None [(''bold'', True)]) = None"
    by code_simp
  have st: "current_line (line_in_progress 5 7) = \<lparr>chars = 5, width = 7\<rparr>"
    by (simp add: line_in_progress_def)
  show ?thesis
    using sep_resets_current_line [OF nfc ok] sep_resets_current_line [OF nfc ok'] ok ok' st
    by simp
qed

end
